theory Spec2Isabelle
  imports Main "HOL-Library.Word"
begin

unbundle bit_operations_syntax

section \<open>GeneMarketFHE: the on-ledger contract\<close>

text \<open>
  A shallow embedding of the Solidity contract \<open>GeneMarketFHE\<close> (pragma \<open>^0.8.24\<close>).
  Storage variables are the fields of a record; a Solidity \<open>mapping\<close> is a total
  function (every key exists and reads as the zero value until written); \<open>uint256\<close> is a
  256-bit word and \<open>+\<close>, \<open>++\<close> are the checked operations of Solidity 0.8, which revert
  with an arithmetic panic on overflow. A call returns either the error it reverts with
  (\<open>Inl\<close>) or the new storage together with the events it emitted (\<open>Inr\<close>).
\<close>

subsection \<open>Value types\<close>

type_synonym address = "160 word"
type_synonym uint256 = "256 word"
type_synonym uint32 = "32 word"
type_synonym bytes32 = "256 word"
type_synonym bytes = "8 word list"

text \<open>\<open>euint32\<close> is a user-defined value type over \<open>bytes32\<close>: an opaque ciphertext handle.\<close>

type_synonym euint32 = "256 word"

subsection \<open>The external collaborators\<close>

text \<open>
  The \<open>FHE\<close> library and \<open>keccak256(abi.encode(...))\<close> are not part of the contract: they
  are taken as parameters, each a function of its arguments. \<open>FHE.requestDecryption\<close> is
  not among the fields: the request identifier the engine hands back is an argument of
  \<open>requestResearchCalculation\<close> below.
\<close>

record fhe =
  fhe_isInitialized :: "euint32 \<Rightarrow> bool"
  fhe_asEuint32 :: "uint32 \<Rightarrow> euint32"
  fhe_add :: "euint32 \<Rightarrow> euint32 \<Rightarrow> euint32"
  fhe_toBytes32 :: "euint32 \<Rightarrow> bytes32"
  fhe_checkSignatures :: "uint256 \<Rightarrow> bytes \<Rightarrow> bytes \<Rightarrow> bool"
  keccak256_abi_encode :: "bytes32 list \<Rightarrow> address \<Rightarrow> bytes32"

text \<open>What the EVM gives every call: \<open>msg.sender\<close>, \<open>block.timestamp\<close>, \<open>address(this)\<close>.\<close>

record env =
  msg_sender :: address
  block_timestamp :: uint256
  this_address :: address

subsection \<open>Storage\<close>

record DecryptionContext =
  batchId :: uint256
  stateHash :: bytes32
  processed :: bool

record storage =
  owner :: address
  isProvider :: "address \<Rightarrow> bool"
  paused :: bool
  cooldownSeconds :: uint256
  lastSubmissionTime :: "address \<Rightarrow> uint256"
  lastDecryptionRequestTime :: "address \<Rightarrow> uint256"
  currentBatchId :: uint256
  isBatchOpen :: "uint256 \<Rightarrow> bool"
  batchSubmissionCount :: "uint256 \<Rightarrow> uint256"
  batchGeneticData :: "uint256 \<Rightarrow> address \<Rightarrow> euint32 list"
  decryptionContexts :: "uint256 \<Rightarrow> DecryptionContext"

text \<open>
  \<open>batchGeneticData\<close> maps to the struct \<open>EncryptedGeneticData\<close>, whose only field is the
  dynamic array \<open>dataPoints\<close>; the model stores the array itself.
\<close>

subsection \<open>Errors and events\<close>

text \<open>
  The twelve custom errors of the contract, and the two reverts the language adds:
  \<open>Panic\<close> for checked arithmetic (code 0x11), \<open>DecodeError\<close> for an \<open>abi.decode\<close> of too
  short a payload.
\<close>

datatype error =
    NotOwner | NotProvider | Paused | CooldownActive | BatchClosed | InvalidBatch
  | ReplayAttempt | StateMismatch | InvalidProof | AlreadyProcessed | EmptyBatch
  | InvalidCooldown | Panic | DecodeError

datatype event =
    OwnershipTransferred address address
  | ProviderAdded address
  | ProviderRemoved address
  | PausedContract address
  | UnpausedContract address
  | CooldownSet uint256 uint256
  | BatchOpened uint256
  | BatchClosed_event uint256 uint256
  | GeneticDataSubmitted address uint256 uint256
  | DecryptionRequested uint256 uint256 bytes32
  | DecryptionCompleted uint256 uint256 uint256

type_synonym outcome = "error + storage \<times> event list"

subsection \<open>Checked arithmetic and decoding\<close>

definition checked_add :: "uint256 \<Rightarrow> uint256 \<Rightarrow> uint256 option" where
  "checked_add a b = (if unat a + unat b < 2 ^ 256 then Some (a + b) else None)"

text \<open>
  \<open>abi.decode(cleartexts, (uint256))\<close>: the first 32 bytes, big-endian; fewer than 32 bytes
  revert, further bytes are ignored.
\<close>

definition be_uint256 :: "bytes \<Rightarrow> uint256" where
  "be_uint256 bs = foldl (\<lambda>acc b. acc * 256 + ucast b) 0 bs"

definition abi_decode_uint256 :: "bytes \<Rightarrow> uint256 option" where
  "abi_decode_uint256 bs = (if length bs < 32 then None else Some (be_uint256 (take 32 bs)))"

subsection \<open>Modifiers\<close>

text \<open>A modifier either reverts with an error or lets the call go on (\<open>None\<close>).\<close>

definition onlyOwner :: "storage \<Rightarrow> env \<Rightarrow> error option" where
  "onlyOwner s e = (if msg_sender e \<noteq> owner s then Some NotOwner else None)"

definition onlyProvider :: "storage \<Rightarrow> env \<Rightarrow> error option" where
  "onlyProvider s e = (if \<not> isProvider s (msg_sender e) then Some NotProvider else None)"

definition whenNotPaused :: "storage \<Rightarrow> env \<Rightarrow> error option" where
  "whenNotPaused s e = (if paused s then Some Paused else None)"

definition respectSubmissionCooldown :: "storage \<Rightarrow> env \<Rightarrow> error option" where
  "respectSubmissionCooldown s e =
     (case checked_add (lastSubmissionTime s (msg_sender e)) (cooldownSeconds s) of
        None \<Rightarrow> Some Panic
      | Some deadline \<Rightarrow> if block_timestamp e < deadline then Some CooldownActive else None)"

definition respectDecryptionCooldown :: "storage \<Rightarrow> env \<Rightarrow> error option" where
  "respectDecryptionCooldown s e =
     (case checked_add (lastDecryptionRequestTime s (msg_sender e)) (cooldownSeconds s) of
        None \<Rightarrow> Some Panic
      | Some deadline \<Rightarrow> if block_timestamp e < deadline then Some CooldownActive else None)"

text \<open>Modifiers run in the order they are written on the function.\<close>

fun modifiers :: "(storage \<Rightarrow> env \<Rightarrow> error option) list \<Rightarrow> storage \<Rightarrow> env \<Rightarrow> error option" where
  "modifiers [] s e = None"
| "modifiers (m # ms) s e = (case m s e of Some err \<Rightarrow> Some err | None \<Rightarrow> modifiers ms s e)"

subsection \<open>Administration\<close>

definition constructor :: "env \<Rightarrow> storage \<times> event list" where
  "constructor e =
     (\<lparr> owner = msg_sender e,
        isProvider = (\<lambda>_. False)(msg_sender e := True),
        paused = False,
        cooldownSeconds = 60,
        lastSubmissionTime = (\<lambda>_. 0),
        lastDecryptionRequestTime = (\<lambda>_. 0),
        currentBatchId = 0,
        isBatchOpen = (\<lambda>_. False),
        batchSubmissionCount = (\<lambda>_. 0),
        batchGeneticData = (\<lambda>_ _. []),
        decryptionContexts = (\<lambda>_. \<lparr> batchId = 0, stateHash = 0, processed = False \<rparr>) \<rparr>,
      [ProviderAdded (msg_sender e)])"

definition transferOwnership :: "storage \<Rightarrow> env \<Rightarrow> address \<Rightarrow> outcome" where
  "transferOwnership s e newOwner =
     (case modifiers [onlyOwner] s e of
        Some err \<Rightarrow> Inl err
      | None \<Rightarrow> Inr (s\<lparr> owner := newOwner \<rparr>, [OwnershipTransferred (owner s) newOwner]))"

definition addProvider :: "storage \<Rightarrow> env \<Rightarrow> address \<Rightarrow> outcome" where
  "addProvider s e provider =
     (case modifiers [onlyOwner] s e of
        Some err \<Rightarrow> Inl err
      | None \<Rightarrow>
          if \<not> isProvider s provider
          then Inr (s\<lparr> isProvider := (isProvider s)(provider := True) \<rparr>, [ProviderAdded provider])
          else Inr (s, []))"

definition removeProvider :: "storage \<Rightarrow> env \<Rightarrow> address \<Rightarrow> outcome" where
  "removeProvider s e provider =
     (case modifiers [onlyOwner] s e of
        Some err \<Rightarrow> Inl err
      | None \<Rightarrow>
          if isProvider s provider
          then Inr (s\<lparr> isProvider := (isProvider s)(provider := False) \<rparr>, [ProviderRemoved provider])
          else Inr (s, []))"

definition pause :: "storage \<Rightarrow> env \<Rightarrow> outcome" where
  "pause s e =
     (case modifiers [onlyOwner, whenNotPaused] s e of
        Some err \<Rightarrow> Inl err
      | None \<Rightarrow> Inr (s\<lparr> paused := True \<rparr>, [PausedContract (msg_sender e)]))"

definition unpause :: "storage \<Rightarrow> env \<Rightarrow> outcome" where
  "unpause s e =
     (case modifiers [onlyOwner] s e of
        Some err \<Rightarrow> Inl err
      | None \<Rightarrow> Inr (s\<lparr> paused := False \<rparr>, [UnpausedContract (msg_sender e)]))"

definition setCooldownSeconds :: "storage \<Rightarrow> env \<Rightarrow> uint256 \<Rightarrow> outcome" where
  "setCooldownSeconds s e newCooldownSeconds =
     (case modifiers [onlyOwner] s e of
        Some err \<Rightarrow> Inl err
      | None \<Rightarrow>
          if newCooldownSeconds = 0 then Inl InvalidCooldown
          else Inr (s\<lparr> cooldownSeconds := newCooldownSeconds \<rparr>,
                    [CooldownSet (cooldownSeconds s) newCooldownSeconds]))"

subsection \<open>Batches\<close>

definition openBatch :: "storage \<Rightarrow> env \<Rightarrow> outcome" where
  "openBatch s e =
     (case modifiers [onlyOwner, whenNotPaused] s e of
        Some err \<Rightarrow> Inl err
      | None \<Rightarrow>
          (case checked_add (currentBatchId s) 1 of
             None \<Rightarrow> Inl Panic
           | Some b \<Rightarrow>
               Inr (s\<lparr> currentBatchId := b,
                        isBatchOpen := (isBatchOpen s)(b := True),
                        batchSubmissionCount := (batchSubmissionCount s)(b := 0) \<rparr>,
                    [BatchOpened b])))"

definition closeBatch :: "storage \<Rightarrow> env \<Rightarrow> uint256 \<Rightarrow> outcome" where
  "closeBatch s e b =
     (case modifiers [onlyOwner, whenNotPaused] s e of
        Some err \<Rightarrow> Inl err
      | None \<Rightarrow>
          if \<not> isBatchOpen s b then Inl BatchClosed
          else Inr (s\<lparr> isBatchOpen := (isBatchOpen s)(b := False) \<rparr>,
                    [BatchClosed_event b (batchSubmissionCount s b)]))"

subsection \<open>Submissions\<close>

definition initIfNeeded :: "fhe \<Rightarrow> euint32 \<Rightarrow> euint32" where
  "initIfNeeded E val = (if \<not> fhe_isInitialized E val then fhe_asEuint32 E 0 else val)"

text \<open>
  The loop \<open>for (uint i = 0; i < _dataPoints.length; i++) data.dataPoints.push(...)\<close>,
  started at index \<open>i\<close> with the storage array \<open>stored\<close>.
\<close>

function push_loop :: "fhe \<Rightarrow> euint32 list \<Rightarrow> nat \<Rightarrow> euint32 list \<Rightarrow> euint32 list" where
  "push_loop E dataPoints i stored =
     (if i < length dataPoints
      then push_loop E dataPoints (Suc i) (stored @ [initIfNeeded E (dataPoints ! i)])
      else stored)"
  by pat_completeness auto
termination
  by (relation "measure (\<lambda>(E, dataPoints, i, stored). length dataPoints - i)") auto

declare push_loop.simps [simp del]

definition submitEncryptedGeneticData :: "fhe \<Rightarrow> storage \<Rightarrow> env \<Rightarrow> uint256 \<Rightarrow> euint32 list \<Rightarrow> outcome" where
  "submitEncryptedGeneticData E s e b dataPoints =
     (case modifiers [onlyProvider, whenNotPaused, respectSubmissionCooldown] s e of
        Some err \<Rightarrow> Inl err
      | None \<Rightarrow>
          if \<not> isBatchOpen s b then Inl BatchClosed
          else if length dataPoints = 0 then Inl EmptyBatch
          else
            (let s1 = s\<lparr> lastSubmissionTime :=
                          (lastSubmissionTime s)(msg_sender e := block_timestamp e) \<rparr>;
                 cleared = [];
                 stored = push_loop E dataPoints 0 cleared;
                 s2 = s1\<lparr> batchGeneticData :=
                           (batchGeneticData s1)(b := (batchGeneticData s1 b)(msg_sender e := stored)) \<rparr>
             in case checked_add (batchSubmissionCount s2 b) 1 of
                  None \<Rightarrow> Inl Panic
                | Some n \<Rightarrow>
                    Inr (s2\<lparr> batchSubmissionCount := (batchSubmissionCount s2)(b := n) \<rparr>,
                         [GeneticDataSubmitted (msg_sender e) b (of_nat (length dataPoints))])))"

subsection \<open>Aggregation and the decryption request\<close>

text \<open>
  The summation loop, written twice in the contract (in \<open>requestResearchCalculation\<close> and
  in \<open>_reconstructAndHashCleartextsForCallback\<close>) with the same body: the running pair is
  \<open>(encryptedSum, initialized)\<close>.
\<close>

function sum_loop :: "fhe \<Rightarrow> euint32 list \<Rightarrow> nat \<Rightarrow> euint32 \<times> bool \<Rightarrow> euint32 \<times> bool" where
  "sum_loop E dataPoints i acc =
     (if i < length dataPoints
      then (let dataPoint = dataPoints ! i in
            if \<not> snd acc then sum_loop E dataPoints (Suc i) (dataPoint, True)
            else sum_loop E dataPoints (Suc i) (fhe_add E (fst acc) dataPoint, True))
      else acc)"
  by pat_completeness auto
termination
  by (relation "measure (\<lambda>(E, dataPoints, i, acc). length dataPoints - i)") auto

declare sum_loop.simps [simp del]

text \<open>One round of the loop body, on the running pair and the data point read.\<close>

fun sum_step :: "fhe \<Rightarrow> euint32 \<times> bool \<Rightarrow> euint32 \<Rightarrow> euint32 \<times> bool" where
  "sum_step E (a, initialized) d = (if \<not> initialized then (d, True) else (fhe_add E a d, True))"

text \<open>The sum of one provider's stored data points, as both functions compute it.\<close>

definition summed :: "fhe \<Rightarrow> euint32 list \<Rightarrow> euint32" where
  "summed E dataPoints =
     (let acc0 = (fhe_asEuint32 E 0, False);
          acc1 = (if length dataPoints > 0 then sum_loop E dataPoints 0 acc0 else acc0)
      in if \<not> snd acc1 then fhe_asEuint32 E 0 else fst acc1)"

definition hashCiphertexts :: "fhe \<Rightarrow> env \<Rightarrow> bytes32 list \<Rightarrow> bytes32" where
  "hashCiphertexts E e cts = keccak256_abi_encode E cts (this_address e)"

definition requestResearchCalculation :: "fhe \<Rightarrow> storage \<Rightarrow> env \<Rightarrow> uint256 \<Rightarrow> uint256 \<Rightarrow> outcome" where
  "requestResearchCalculation E s e b requestId =
     (case modifiers [onlyProvider, whenNotPaused, respectDecryptionCooldown] s e of
        Some err \<Rightarrow> Inl err
      | None \<Rightarrow>
          if batchSubmissionCount s b = 0 then Inl EmptyBatch
          else
            (let s1 = s\<lparr> lastDecryptionRequestTime :=
                          (lastDecryptionRequestTime s)(msg_sender e := block_timestamp e) \<rparr>;
                 encryptedSum = summed E (batchGeneticData s1 b (msg_sender e));
                 cts = [fhe_toBytes32 E encryptedSum];
                 h = hashCiphertexts E e cts
             in Inr (s1\<lparr> decryptionContexts :=
                          (decryptionContexts s1)
                            (requestId := \<lparr> batchId = b, stateHash = h, processed = False \<rparr>) \<rparr>,
                     [DecryptionRequested requestId b h])))"

subsection \<open>The decryption callback\<close>

text \<open>The data provider whose sum is rebuilt is \<open>owner\<close>, as the function's body has it.\<close>

definition reconstructAndHashCleartextsForCallback :: "fhe \<Rightarrow> storage \<Rightarrow> env \<Rightarrow> uint256 \<Rightarrow> bytes32" where
  "reconstructAndHashCleartextsForCallback E s e b =
     (let dataProvider = owner s;
          reconstructedEncryptedSum = summed E (batchGeneticData s b dataProvider);
          reconstructedCts = [fhe_toBytes32 E reconstructedEncryptedSum]
      in hashCiphertexts E e reconstructedCts)"

definition myCallback :: "fhe \<Rightarrow> storage \<Rightarrow> env \<Rightarrow> uint256 \<Rightarrow> bytes \<Rightarrow> bytes \<Rightarrow> outcome" where
  "myCallback E s e requestId cleartexts proof =
     (if processed (decryptionContexts s requestId) then Inl ReplayAttempt
      else
        (let ctx = decryptionContexts s requestId;
             currentHash = reconstructAndHashCleartextsForCallback E s e (batchId ctx)
         in if currentHash \<noteq> stateHash ctx then Inl StateMismatch
            else if \<not> fhe_checkSignatures E requestId cleartexts proof then Inl InvalidProof
            else
              (case abi_decode_uint256 cleartexts of
                 None \<Rightarrow> Inl DecodeError
               | Some result \<Rightarrow>
                   Inr (s\<lparr> decryptionContexts :=
                             (decryptionContexts s)(requestId := ctx\<lparr> processed := True \<rparr>) \<rparr>,
                        [DecryptionCompleted requestId (batchId ctx) result]))))"

subsection \<open>Transactions\<close>

text \<open>
  A reverted call leaves the storage as it was; \<open>after\<close> is the storage a call leaves
  behind, whatever its outcome.
\<close>

definition after :: "storage \<Rightarrow> outcome \<Rightarrow> storage" where
  "after s r = (case r of Inl err \<Rightarrow> s | Inr (s', evs) \<Rightarrow> s')"

definition succeeds :: "outcome \<Rightarrow> bool" where
  "succeeds r = (case r of Inl err \<Rightarrow> False | Inr x \<Rightarrow> True)"

datatype call =
    TransferOwnership address
  | AddProvider address
  | RemoveProvider address
  | Pause
  | Unpause
  | SetCooldownSeconds uint256
  | OpenBatch
  | CloseBatch uint256
  | Submit uint256 "euint32 list"
  | RequestCalculation uint256 uint256
  | Callback uint256 bytes bytes

fun exec :: "fhe \<Rightarrow> storage \<Rightarrow> env \<Rightarrow> call \<Rightarrow> outcome" where
  "exec E s e (TransferOwnership a) = transferOwnership s e a"
| "exec E s e (AddProvider a) = addProvider s e a"
| "exec E s e (RemoveProvider a) = removeProvider s e a"
| "exec E s e Pause = pause s e"
| "exec E s e Unpause = unpause s e"
| "exec E s e (SetCooldownSeconds c) = setCooldownSeconds s e c"
| "exec E s e OpenBatch = openBatch s e"
| "exec E s e (CloseBatch b) = closeBatch s e b"
| "exec E s e (Submit b dataPoints) = submitEncryptedGeneticData E s e b dataPoints"
| "exec E s e (RequestCalculation b requestId) = requestResearchCalculation E s e b requestId"
| "exec E s e (Callback requestId cleartexts proof) = myCallback E s e requestId cleartexts proof"

text \<open>A run of transactions, each with its own sender and block time.\<close>

fun run :: "fhe \<Rightarrow> storage \<Rightarrow> (env \<times> call) list \<Rightarrow> storage" where
  "run E s [] = s"
| "run E s ((e, c) # txs) = run E (after s (exec E s e c)) txs"

text \<open>Whether a call, if it succeeds, records a decryption request under \<open>requestId\<close>.\<close>

fun creates :: "uint256 \<Rightarrow> call \<Rightarrow> bool" where
  "creates requestId (RequestCalculation b r) = (r = requestId)"
| "creates requestId c = False"

text \<open>A batch id that \<open>openBatch\<close> has not handed out yet.\<close>

definition never_opened :: "storage \<Rightarrow> uint256 \<Rightarrow> bool" where
  "never_opened s b = (b = 0 \<or> currentBatchId s < b)"

text \<open>A never-opened batch is not open and has no submission counted.\<close>

definition batches_inv :: "storage \<Rightarrow> bool" where
  "batches_inv s = (\<forall>b. never_opened s b \<longrightarrow> \<not> isBatchOpen s b \<and> batchSubmissionCount s b = 0)"

text \<open>The record an unwritten slot of \<open>decryptionContexts\<close> reads as.\<close>

definition no_context :: DecryptionContext where
  "no_context = \<lparr> batchId = 0, stateHash = 0, processed = False \<rparr>"

text \<open>The storages the contract can be in: deployed, then any transactions.\<close>

inductive reachable :: "fhe \<Rightarrow> storage \<Rightarrow> bool" for E :: fhe where
  deployed: "reachable E (fst (constructor e))"
| transacted: "reachable E s \<Longrightarrow> reachable E (after s (exec E s e c))"

subsection \<open>A concrete engine for worked examples\<close>

text \<open>
  The theorems below hold for every engine. To run the contract on concrete inputs an
  engine has to be fixed: this one takes a handle to be initialized when it is not zero,
  encrypts \<open>v\<close> to the handle \<open>v + 1\<close>, adds handles as numbers, accepts a proof when it
  repeats the cleartext, and hashes by a polynomial whose lowest bit is forced to one (so
  no hash is zero, as is taken for granted of \<open>keccak256\<close>).
\<close>

definition demo_engine :: fhe where
  "demo_engine =
     \<lparr> fhe_isInitialized = (\<lambda>h. h \<noteq> 0),
       fhe_asEuint32 = (\<lambda>v. ucast v + 1),
       fhe_add = (\<lambda>a b. a + b),
       fhe_toBytes32 = (\<lambda>h. h),
       fhe_checkSignatures = (\<lambda>requestId cleartexts proof. proof = cleartexts),
       keccak256_abi_encode = (\<lambda>cts a. foldl (\<lambda>h c. h * 31 + c) (ucast a) cts OR 1) \<rparr>"

text \<open>Senders and a payload of 32 bytes that decodes to 5.\<close>

definition at_time :: "address \<Rightarrow> uint256 \<Rightarrow> env" where
  "at_time a t = \<lparr> msg_sender = a, block_timestamp = t, this_address = 9 \<rparr>"

definition cleartext5 :: bytes where
  "cleartext5 =
     [0, 0, 0, 0, 0, 0, 0, 0, 0, 0, 0, 0, 0, 0, 0, 0,
      0, 0, 0, 0, 0, 0, 0, 0, 0, 0, 0, 0, 0, 0, 0, 5]"

text \<open>
  Storages reached by short runs: address 1 deploys (and so is owner and provider),
  address 2 is a provider the owner adds, batch 1 is the first batch opened.
\<close>

definition fresh :: storage where
  "fresh = fst (constructor (at_time 1 0))"

definition batch_open :: storage where
  "batch_open = run demo_engine fresh [(at_time 1 10, AddProvider 2), (at_time 1 20, OpenBatch)]"

definition batch_closed :: storage where
  "batch_closed = run demo_engine batch_open [(at_time 1 30, CloseBatch 1)]"

definition owner_submitted :: storage where
  "owner_submitted = run demo_engine batch_open [(at_time 1 100, Submit 1 [7])]"

definition submitted_then_closed :: storage where
  "submitted_then_closed = run demo_engine owner_submitted [(at_time 1 110, CloseBatch 1)]"

text \<open>\<open>type(uint256).max\<close>, that is \<open>2 ^ 256 - 1\<close>.\<close>

definition max_uint256 :: uint256 where
  "max_uint256 = 115792089237316195423570985008687907853269984665640564039457584007913129639935"

definition cooldown_maximal :: storage where
  "cooldown_maximal =
     run demo_engine owner_submitted [(at_time 1 120, SetCooldownSeconds max_uint256)]"

definition request_cooldown_maximal :: storage where
  "request_cooldown_maximal =
     run demo_engine owner_submitted
       [(at_time 1 200, RequestCalculation 1 7), (at_time 1 210, SetCooldownSeconds max_uint256)]"

definition owner_requested :: storage where
  "owner_requested = run demo_engine owner_submitted [(at_time 1 200, RequestCalculation 1 7)]"

definition provider_requested :: storage where
  "provider_requested =
     run demo_engine batch_open
       [(at_time 2 100, Submit 1 [5]), (at_time 2 200, RequestCalculation 1 7)]"

section \<open>Properties\<close>

subsection \<open>The loops in closed form\<close>

lemma push_loop_eq:
  "push_loop E dataPoints i stored = stored @ map (initIfNeeded E) (drop i dataPoints)"
proof (induction E dataPoints i stored rule: push_loop.induct)
  case (1 E dataPoints i stored)
  show ?case
  proof (cases "i < length dataPoints")
    case True
    then have "drop i dataPoints = dataPoints ! i # drop (Suc i) dataPoints"
      by (simp add: Cons_nth_drop_Suc)
    with True 1 show ?thesis by (subst push_loop.simps) simp
  next
    case False
    then show ?thesis by (subst push_loop.simps) simp
  qed
qed

lemma sum_loop_eq:
  "sum_loop E dataPoints i acc = foldl (sum_step E) acc (drop i dataPoints)"
proof (induction E dataPoints i acc rule: sum_loop.induct)
  case (1 E dataPoints i acc)
  obtain a initialized where acc: "acc = (a, initialized)" by (cases acc)
  show ?case
  proof (cases "i < length dataPoints")
    case True
    then have d: "drop i dataPoints = dataPoints ! i # drop (Suc i) dataPoints"
      by (simp add: Cons_nth_drop_Suc)
    from True 1 acc d show ?thesis
      by (subst sum_loop.simps) (cases initialized; simp)
  next
    case False
    then show ?thesis by (subst sum_loop.simps) simp
  qed
qed

lemma foldl_sum_step_True:
  "foldl (sum_step E) (a, True) ds = (foldl (fhe_add E) a ds, True)"
  by (induction ds arbitrary: a) simp_all

text \<open>
  The sum starts from the first stored data point and adds the others from left to right;
  with nothing stored it is the encryption of zero.
\<close>

lemma summed_Nil: "summed E [] = fhe_asEuint32 E 0"
  by (simp add: summed_def)

lemma summed_Cons: "summed E (d # ds) = foldl (fhe_add E) d ds"
  by (simp add: summed_def sum_loop_eq foldl_sum_step_True)

subsection \<open>The calls as decision chains\<close>

lemma unat_succ_256:
  "unat (n :: uint256) + 1 < 2 ^ 256 \<Longrightarrow> unat (n + 1) = unat n + 1"
  using unat_add_lem [of n 1] by simp

lemma unat_less_succ:
  "unat (n :: uint256) + 1 < 2 ^ 256 \<Longrightarrow> n < n + 1 \<and> n + 1 \<noteq> 0"
proof -
  assume "unat n + 1 < 2 ^ 256"
  then have "unat (n + 1) = unat n + 1" by (rule unat_succ_256)
  then show ?thesis by (auto simp add: word_less_nat_alt)
qed

lemma less_iff_unat_sum:
  "unat (t :: uint256) + unat c < 2 ^ 256 \<Longrightarrow> (now < t + c) = (unat now < unat t + unat c)"
  using unat_add_lem [of t c] by (simp add: word_less_nat_alt)

text \<open>
  \<open>submitEncryptedGeneticData\<close> with its modifiers, checks and loop written out: the
  order of the reverts is the order of the source.
\<close>

lemma submit_unfold:
  "submitEncryptedGeneticData E s e b dataPoints =
     (if \<not> isProvider s (msg_sender e) then Inl NotProvider
      else if paused s then Inl Paused
      else if \<not> unat (lastSubmissionTime s (msg_sender e)) + unat (cooldownSeconds s) < 2 ^ 256
        then Inl Panic
      else if block_timestamp e < lastSubmissionTime s (msg_sender e) + cooldownSeconds s
        then Inl CooldownActive
      else if \<not> isBatchOpen s b then Inl BatchClosed
      else if dataPoints = [] then Inl EmptyBatch
      else if \<not> unat (batchSubmissionCount s b) + 1 < 2 ^ 256 then Inl Panic
      else Inr (s\<lparr> lastSubmissionTime := (lastSubmissionTime s)(msg_sender e := block_timestamp e),
                  batchGeneticData :=
                    (batchGeneticData s)
                      (b := (batchGeneticData s b)(msg_sender e := map (initIfNeeded E) dataPoints)),
                  batchSubmissionCount := (batchSubmissionCount s)(b := batchSubmissionCount s b + 1) \<rparr>,
               [GeneticDataSubmitted (msg_sender e) b (of_nat (length dataPoints))]))"
  by (simp add: submitEncryptedGeneticData_def onlyProvider_def whenNotPaused_def
      respectSubmissionCooldown_def checked_add_def push_loop_eq Let_def)

lemma request_unfold:
  "requestResearchCalculation E s e b requestId =
     (if \<not> isProvider s (msg_sender e) then Inl NotProvider
      else if paused s then Inl Paused
      else if \<not> unat (lastDecryptionRequestTime s (msg_sender e)) + unat (cooldownSeconds s) < 2 ^ 256
        then Inl Panic
      else if block_timestamp e < lastDecryptionRequestTime s (msg_sender e) + cooldownSeconds s
        then Inl CooldownActive
      else if batchSubmissionCount s b = 0 then Inl EmptyBatch
      else Inr (s\<lparr> lastDecryptionRequestTime :=
                    (lastDecryptionRequestTime s)(msg_sender e := block_timestamp e),
                  decryptionContexts :=
                    (decryptionContexts s)
                      (requestId :=
                         \<lparr> batchId = b,
                           stateHash =
                             keccak256_abi_encode E
                               [fhe_toBytes32 E (summed E (batchGeneticData s b (msg_sender e)))]
                               (this_address e),
                           processed = False \<rparr>) \<rparr>,
               [DecryptionRequested requestId b
                  (keccak256_abi_encode E
                     [fhe_toBytes32 E (summed E (batchGeneticData s b (msg_sender e)))]
                     (this_address e))]))"
  by (simp add: requestResearchCalculation_def onlyProvider_def whenNotPaused_def
      respectDecryptionCooldown_def checked_add_def hashCiphertexts_def Let_def)

lemma reconstruct_unfold:
  "reconstructAndHashCleartextsForCallback E s e b =
     keccak256_abi_encode E [fhe_toBytes32 E (summed E (batchGeneticData s b (owner s)))] (this_address e)"
  by (simp add: reconstructAndHashCleartextsForCallback_def hashCiphertexts_def)

lemma callback_unfold:
  "myCallback E s e requestId cleartexts proof =
     (if processed (decryptionContexts s requestId) then Inl ReplayAttempt
      else if reconstructAndHashCleartextsForCallback E s e (batchId (decryptionContexts s requestId))
              \<noteq> stateHash (decryptionContexts s requestId) then Inl StateMismatch
      else if \<not> fhe_checkSignatures E requestId cleartexts proof then Inl InvalidProof
      else if length cleartexts < 32 then Inl DecodeError
      else Inr (s\<lparr> decryptionContexts :=
                    (decryptionContexts s)
                      (requestId := (decryptionContexts s requestId)\<lparr> processed := True \<rparr>) \<rparr>,
                [DecryptionCompleted requestId (batchId (decryptionContexts s requestId))
                   (be_uint256 (take 32 cleartexts))]))"
  by (simp add: myCallback_def abi_decode_uint256_def Let_def)

subsection \<open>The worked storages, evaluated\<close>

lemmas call_defs =
  transferOwnership_def addProvider_def removeProvider_def pause_def unpause_def
  setCooldownSeconds_def openBatch_def closeBatch_def submitEncryptedGeneticData_def
  requestResearchCalculation_def myCallback_def reconstructAndHashCleartextsForCallback_def
  hashCiphertexts_def onlyOwner_def onlyProvider_def whenNotPaused_def
  respectSubmissionCooldown_def respectDecryptionCooldown_def checked_add_def after_def
  succeeds_def push_loop_eq initIfNeeded_def summed_Nil summed_Cons abi_decode_uint256_def
  be_uint256_def

lemmas demo_defs = demo_engine_def at_time_def cleartext5_def

lemma unat_max_uint256:
  "unat max_uint256 = 115792089237316195423570985008687907853269984665640564039457584007913129639935"
  by (simp add: max_uint256_def)

lemma demo_hash_nonzero: "\<forall>cts a. keccak256_abi_encode demo_engine cts a \<noteq> 0"
  by (simp add: demo_engine_def or_eq_0_iff)

lemma fresh_eq:
  "fresh = \<lparr> owner = 1, isProvider = (\<lambda>_. False)(1 := True), paused = False,
     cooldownSeconds = 60, lastSubmissionTime = (\<lambda>_. 0), lastDecryptionRequestTime = (\<lambda>_. 0),
     currentBatchId = 0, isBatchOpen = (\<lambda>_. False), batchSubmissionCount = (\<lambda>_. 0),
     batchGeneticData = (\<lambda>_ _. []),
     decryptionContexts = (\<lambda>_. \<lparr> batchId = 0, stateHash = 0, processed = False \<rparr>) \<rparr>"
  by (simp add: fresh_def constructor_def at_time_def)

lemma batch_open_eq:
  "batch_open = \<lparr> owner = 1, isProvider = (\<lambda>_. False)(1 := True, 2 := True), paused = False,
     cooldownSeconds = 60, lastSubmissionTime = (\<lambda>_. 0), lastDecryptionRequestTime = (\<lambda>_. 0),
     currentBatchId = 1, isBatchOpen = (\<lambda>_. False)(1 := True), batchSubmissionCount = (\<lambda>_. 0)(1 := 0),
     batchGeneticData = (\<lambda>_ _. []),
     decryptionContexts = (\<lambda>_. \<lparr> batchId = 0, stateHash = 0, processed = False \<rparr>) \<rparr>"
  by (simp add: batch_open_def fresh_eq call_defs demo_defs)

lemma batch_closed_eq:
  "batch_closed = \<lparr> owner = 1, isProvider = (\<lambda>_. False)(1 := True, 2 := True), paused = False,
     cooldownSeconds = 60, lastSubmissionTime = (\<lambda>_. 0), lastDecryptionRequestTime = (\<lambda>_. 0),
     currentBatchId = 1, isBatchOpen = (\<lambda>_. False)(1 := False), batchSubmissionCount = (\<lambda>_. 0)(1 := 0),
     batchGeneticData = (\<lambda>_ _. []),
     decryptionContexts = (\<lambda>_. \<lparr> batchId = 0, stateHash = 0, processed = False \<rparr>) \<rparr>"
  by (simp add: batch_closed_def batch_open_eq call_defs demo_defs)

lemma owner_submitted_eq:
  "owner_submitted = \<lparr> owner = 1, isProvider = (\<lambda>_. False)(1 := True, 2 := True), paused = False,
     cooldownSeconds = 60, lastSubmissionTime = (\<lambda>_. 0)(1 := 100), lastDecryptionRequestTime = (\<lambda>_. 0),
     currentBatchId = 1, isBatchOpen = (\<lambda>_. False)(1 := True), batchSubmissionCount = (\<lambda>_. 0)(1 := 1),
     batchGeneticData = (\<lambda>_ _. [])(1 := (\<lambda>_. [])(1 := [7])),
     decryptionContexts = (\<lambda>_. \<lparr> batchId = 0, stateHash = 0, processed = False \<rparr>) \<rparr>"
  by (simp add: owner_submitted_def batch_open_eq call_defs demo_defs)

lemma submitted_then_closed_eq:
  "submitted_then_closed = \<lparr> owner = 1, isProvider = (\<lambda>_. False)(1 := True, 2 := True), paused = False,
     cooldownSeconds = 60, lastSubmissionTime = (\<lambda>_. 0)(1 := 100), lastDecryptionRequestTime = (\<lambda>_. 0),
     currentBatchId = 1, isBatchOpen = (\<lambda>_. False)(1 := False), batchSubmissionCount = (\<lambda>_. 0)(1 := 1),
     batchGeneticData = (\<lambda>_ _. [])(1 := (\<lambda>_. [])(1 := [7])),
     decryptionContexts = (\<lambda>_. \<lparr> batchId = 0, stateHash = 0, processed = False \<rparr>) \<rparr>"
  by (simp add: submitted_then_closed_def owner_submitted_eq call_defs demo_defs)

lemma cooldown_maximal_eq:
  "cooldown_maximal = \<lparr> owner = 1, isProvider = (\<lambda>_. False)(1 := True, 2 := True), paused = False,
     cooldownSeconds = max_uint256, lastSubmissionTime = (\<lambda>_. 0)(1 := 100), lastDecryptionRequestTime = (\<lambda>_. 0),
     currentBatchId = 1, isBatchOpen = (\<lambda>_. False)(1 := True), batchSubmissionCount = (\<lambda>_. 0)(1 := 1),
     batchGeneticData = (\<lambda>_ _. [])(1 := (\<lambda>_. [])(1 := [7])),
     decryptionContexts = (\<lambda>_. \<lparr> batchId = 0, stateHash = 0, processed = False \<rparr>) \<rparr>"
  by (simp add: cooldown_maximal_def owner_submitted_eq call_defs demo_defs max_uint256_def)

lemma owner_requested_eq:
  "owner_requested = \<lparr> owner = 1, isProvider = (\<lambda>_. False)(1 := True, 2 := True), paused = False,
     cooldownSeconds = 60, lastSubmissionTime = (\<lambda>_. 0)(1 := 100),
     lastDecryptionRequestTime = (\<lambda>_. 0)(1 := 200),
     currentBatchId = 1, isBatchOpen = (\<lambda>_. False)(1 := True), batchSubmissionCount = (\<lambda>_. 0)(1 := 1),
     batchGeneticData = (\<lambda>_ _. [])(1 := (\<lambda>_. [])(1 := [7])),
     decryptionContexts = (\<lambda>_. \<lparr> batchId = 0, stateHash = 0, processed = False \<rparr>)
       (7 := \<lparr> batchId = 1, stateHash = 287, processed = False \<rparr>) \<rparr>"
  by (simp add: owner_requested_def owner_submitted_eq call_defs demo_defs)

lemma request_cooldown_maximal_eq:
  "request_cooldown_maximal = owner_requested\<lparr> cooldownSeconds := max_uint256 \<rparr>"
  by (simp add: request_cooldown_maximal_def owner_requested_def owner_requested_eq owner_submitted_eq
      call_defs demo_defs max_uint256_def)

lemma provider_requested_eq:
  "provider_requested = \<lparr> owner = 1, isProvider = (\<lambda>_. False)(1 := True, 2 := True), paused = False,
     cooldownSeconds = 60, lastSubmissionTime = (\<lambda>_. 0)(2 := 100),
     lastDecryptionRequestTime = (\<lambda>_. 0)(2 := 200),
     currentBatchId = 1, isBatchOpen = (\<lambda>_. False)(1 := True), batchSubmissionCount = (\<lambda>_. 0)(1 := 1),
     batchGeneticData = (\<lambda>_ _. [])(1 := (\<lambda>_. [])(2 := [5])),
     decryptionContexts = (\<lambda>_. \<lparr> batchId = 0, stateHash = 0, processed = False \<rparr>)
       (7 := \<lparr> batchId = 1, stateHash = 285, processed = False \<rparr>) \<rparr>"
  by (simp add: provider_requested_def batch_open_eq call_defs demo_defs)

subsection \<open>Reachable storages\<close>

lemma reachable_run: "reachable E s \<Longrightarrow> reachable E (run E s txs)"
proof (induction txs arbitrary: s)
  case Nil
  then show ?case by simp
next
  case (Cons tx txs)
  obtain e c where tx: "tx = (e, c)" by (cases tx)
  from Cons.prems have "reachable E (after s (exec E s e c))" by (rule reachable.transacted)
  then show ?case using Cons.IH tx by simp
qed

lemma reachable_batch_closed: "reachable demo_engine batch_closed"
proof -
  have "reachable demo_engine fresh" unfolding fresh_def by (rule reachable.deployed)
  then have "reachable demo_engine batch_open" unfolding batch_open_def by (rule reachable_run)
  then show ?thesis unfolding batch_closed_def by (rule reachable_run)
qed

text \<open>
  Only \<open>openBatch\<close> opens a batch, under the next id, and only a submission into an open
  batch counts: no call breaks \<open>batches_inv\<close>.
\<close>

lemma batches_inv_exec:
  assumes "batches_inv s"
  shows "batches_inv (after s (exec E s e c))"
proof (cases c)
  case OpenBatch
  show ?thesis
  proof (cases "onlyOwner s e = None \<and> whenNotPaused s e = None \<and> unat (currentBatchId s) + 1 < 2 ^ 256")
    case True
    then have fits: "unat (currentBatchId s) + 1 < 2 ^ 256" by simp
    have lt: "currentBatchId s < currentBatchId s + 1" and nz: "currentBatchId s + 1 \<noteq> 0"
      using unat_less_succ [OF fits] by simp_all
    have "never_opened s b \<and> b \<noteq> currentBatchId s + 1"
      if "b = 0 \<or> currentBatchId s + 1 < b" for b
      using that lt nz by (auto simp add: never_opened_def)
    with True assms OpenBatch show ?thesis
      by (auto simp add: batches_inv_def never_opened_def openBatch_def checked_add_def after_def)
  next
    case False
    with OpenBatch have "after s (exec E s e c) = s"
      by (auto simp add: openBatch_def checked_add_def after_def split: option.splits)
    with assms show ?thesis by simp
  qed
next
  case (Submit b dataPoints)
  with assms show ?thesis
    by (auto simp add: batches_inv_def never_opened_def submit_unfold after_def)
next
  case (RequestCalculation b r)
  with assms show ?thesis
    by (auto simp add: batches_inv_def never_opened_def request_unfold after_def)
next
  case (Callback r ct pf)
  with assms show ?thesis
    by (auto simp add: batches_inv_def never_opened_def callback_unfold after_def)
qed (use assms in \<open>auto simp add: batches_inv_def never_opened_def transferOwnership_def
      addProvider_def removeProvider_def pause_def unpause_def setCooldownSeconds_def
      closeBatch_def after_def split: option.splits\<close>)

lemma reachable_batches_inv: "reachable E s \<Longrightarrow> batches_inv s"
proof (induction rule: reachable.induct)
  case (deployed e)
  show ?case by (simp add: batches_inv_def constructor_def)
next
  case (transacted s e c)
  then show ?case by (simp add: batches_inv_exec)
qed

text \<open>
  A slot of \<open>decryptionContexts\<close> that no request was recorded under stays unwritten,
  as long as no hash is zero: a callback for it stops at the state check.
\<close>

lemma no_context_kept:
  assumes nz: "\<forall>cts a. keccak256_abi_encode E cts a \<noteq> 0"
    and d: "decryptionContexts s requestId = no_context"
    and c: "\<not> creates requestId c"
  shows "decryptionContexts (after s (exec E s e c)) requestId = no_context"
proof (cases c)
  case (RequestCalculation b r)
  with c have "r \<noteq> requestId" by simp
  with d RequestCalculation show ?thesis by (simp add: request_unfold after_def)
next
  case (Callback r ct pf)
  show ?thesis
  proof (cases "r = requestId")
    case True
    with nz d have "myCallback E s e r ct pf = Inl StateMismatch"
      by (simp add: callback_unfold reconstruct_unfold no_context_def)
    with d Callback show ?thesis by (simp add: after_def)
  next
    case False
    with d Callback show ?thesis by (simp add: callback_unfold after_def)
  qed
next
  case (Submit b dataPoints)
  with d show ?thesis by (simp add: submit_unfold after_def)
qed (use d in \<open>auto simp add: transferOwnership_def addProvider_def removeProvider_def pause_def
      unpause_def setCooldownSeconds_def openBatch_def closeBatch_def after_def
      split: option.splits\<close>)

lemma no_context_run:
  assumes nz: "\<forall>cts a. keccak256_abi_encode E cts a \<noteq> 0"
  shows "decryptionContexts s requestId = no_context \<Longrightarrow>
         list_all (\<lambda>tx. \<not> creates requestId (snd tx)) txs \<Longrightarrow>
         decryptionContexts (run E s txs) requestId = no_context"
proof (induction txs arbitrary: s)
  case Nil
  then show ?case by simp
next
  case (Cons tx txs)
  obtain e c where tx: "tx = (e, c)" by (cases tx)
  with Cons.prems have c: "\<not> creates requestId c" by simp
  have "decryptionContexts (after s (exec E s e c)) requestId = no_context"
    using nz Cons.prems(1) c by (rule no_context_kept)
  with Cons.IH Cons.prems(2) tx show ?case by simp
qed

text \<open>
  When the owner is the requester, the hash the callback rebuilds right after the request
  is the recorded one: the two functions sum the same stored list in the same way.
\<close>

lemma callback_check_passes_for_owner:
  assumes "requestResearchCalculation E s e b requestId = Inr (s', evs)"
    and "msg_sender e = owner s" and "this_address e' = this_address e"
  shows "reconstructAndHashCleartextsForCallback E s' e' (batchId (decryptionContexts s' requestId))
           = stateHash (decryptionContexts s' requestId)
       \<and> \<not> processed (decryptionContexts s' requestId)"
  using assms by (auto simp add: request_unfold reconstruct_unfold split: if_splits)

section \<open>The claims\<close>

subsection \<open>C1: the fingerprint the callback rebuilds\<close>

text \<open>
  C1 says that the callback rebuilds the fingerprint from the aggregate of the provider
  who made the request, so that an unchanged submission passes the state check. The
  callback sums the data of \<open>owner\<close> instead. Here provider 2 (not the owner) submits
  \<open>[5]\<close> into batch 1 and requests the calculation under request 7; the recorded
  fingerprint is the hash of the provider's sum; nothing is changed; and the callback,
  with a proof the engine accepts, reverts with \<open>StateMismatch\<close>.
\<close>

theorem callback_rebuilds_owner_sum_not_requester:
  "owner provider_requested = 1 \<and> isProvider provider_requested 2
   \<and> batchGeneticData provider_requested 1 2 = [5]
   \<and> decryptionContexts provider_requested 7
       = \<lparr> batchId = 1,
           stateHash = keccak256_abi_encode demo_engine
                         [fhe_toBytes32 demo_engine (summed demo_engine [5])] 9,
           processed = False \<rparr>
   \<and> fhe_checkSignatures demo_engine 7 cleartext5 cleartext5
   \<and> myCallback demo_engine provider_requested (at_time 2 300) 7 cleartext5 cleartext5
       = Inl StateMismatch"
  by (simp add: callback_unfold reconstruct_unfold provider_requested_eq demo_defs summed_Cons summed_Nil)

subsection \<open>C2: a callback for a request that was never made\<close>

text \<open>
  C2 says that a callback for a request identifier under which no request was ever
  recorded reverts with the replay error. As stated it fails: on the freshly deployed
  contract the callback for request 7 reverts with \<open>StateMismatch\<close>.
\<close>

theorem callback_for_unknown_request_counterexample:
  "decryptionContexts fresh 7 = no_context
   \<and> myCallback demo_engine fresh (at_time 3 300) 7 cleartext5 cleartext5 = Inl StateMismatch"
  by (simp add: callback_unfold reconstruct_unfold fresh_eq no_context_def demo_defs summed_Nil)

text \<open>
  C2, amended: after deployment and any transactions none of which is a calculation
  request answered with \<open>requestId\<close>, a callback for \<open>requestId\<close> reverts with the
  state-mismatch error and leaves the storage as it was, whatever its payload, provided
  the hash function never returns zero (the unwritten record reads as the zero
  fingerprint, which the rebuilt hash then differs from).
\<close>

theorem callback_for_unknown_request_is_state_mismatch:
  assumes "\<forall>cts a. keccak256_abi_encode E cts a \<noteq> 0"
    and "list_all (\<lambda>tx. \<not> creates requestId (snd tx)) txs"
    and "s = run E (fst (constructor e0)) txs"
  shows "myCallback E s e requestId cleartexts proof = Inl StateMismatch
       \<and> after s (myCallback E s e requestId cleartexts proof) = s"
proof -
  have "decryptionContexts (fst (constructor e0)) requestId = no_context"
    by (simp add: constructor_def no_context_def)
  with assms have "decryptionContexts s requestId = no_context"
    by (simp add: no_context_run)
  with assms(1) show ?thesis
    by (simp add: callback_unfold reconstruct_unfold no_context_def after_def)
qed

theorem callback_for_unknown_request_is_state_mismatch_witness:
  "myCallback demo_engine owner_requested (at_time 3 300) 8 cleartext5 cleartext5 = Inl StateMismatch
   \<and> after owner_requested (myCallback demo_engine owner_requested (at_time 3 300) 8 cleartext5 cleartext5)
       = owner_requested"
proof -
  have txs: "list_all (\<lambda>tx. \<not> creates 8 (snd tx))
      [(at_time 1 10, AddProvider 2), (at_time 1 20, OpenBatch), (at_time 1 100, Submit 1 [7]),
       (at_time 1 200, RequestCalculation 1 7)]"
    by simp
  have s: "owner_requested = run demo_engine (fst (constructor (at_time 1 0)))
      [(at_time 1 10, AddProvider 2), (at_time 1 20, OpenBatch), (at_time 1 100, Submit 1 [7]),
       (at_time 1 200, RequestCalculation 1 7)]"
    by (simp add: owner_requested_def owner_submitted_def batch_open_def fresh_def)
  show ?thesis
    by (rule callback_for_unknown_request_is_state_mismatch [OF demo_hash_nonzero txs s])
qed

subsection \<open>C3: calculation requests and the state of the batch\<close>

text \<open>
  C3 says that a calculation request against a batch that is not open fails. As stated
  it fails: the owner submits into batch 1, closes it, and the request against the closed
  batch succeeds.
\<close>

theorem request_on_closed_batch_counterexample:
  "isProvider submitted_then_closed 1 \<and> \<not> isBatchOpen submitted_then_closed 1
   \<and> succeeds (requestResearchCalculation demo_engine submitted_then_closed (at_time 1 200) 1 7)"
  by (simp add: request_unfold succeeds_def submitted_then_closed_eq demo_defs)

text \<open>
  C3, amended: a calculation request fails against every batch with no submission counted,
  and so, in every storage the contract can reach, against every batch that was never
  opened; whether the batch is open is not looked at: for an authorized provider, unpaused
  and with the cooldown elapsed, the request succeeds exactly when the batch has at least
  one submission counted, closed or not.
\<close>

theorem request_needs_submission_not_open_batch:
  "(batchSubmissionCount s b = 0 \<longrightarrow> \<not> succeeds (requestResearchCalculation E s e b requestId))
   \<and> (reachable E s \<and> never_opened s b \<longrightarrow> \<not> succeeds (requestResearchCalculation E s e b requestId))
   \<and> (isProvider s (msg_sender e) \<and> \<not> paused s
        \<and> unat (lastDecryptionRequestTime s (msg_sender e)) + unat (cooldownSeconds s)
              \<le> unat (block_timestamp e)
        \<longrightarrow> (succeeds (requestResearchCalculation E s e b requestId)
               \<longleftrightarrow> batchSubmissionCount s b \<noteq> 0))"
proof -
  have zero: "\<not> succeeds (requestResearchCalculation E s e b requestId)"
    if "batchSubmissionCount s b = 0"
    using that by (simp add: request_unfold succeeds_def)
  have never: "\<not> succeeds (requestResearchCalculation E s e b requestId)"
    if "reachable E s" and "never_opened s b"
    using reachable_batches_inv [OF that(1)] that(2) zero by (simp add: batches_inv_def)
  have admitted: "succeeds (requestResearchCalculation E s e b requestId)
      \<longleftrightarrow> batchSubmissionCount s b \<noteq> 0"
    if p: "isProvider s (msg_sender e)" and u: "\<not> paused s"
      and el: "unat (lastDecryptionRequestTime s (msg_sender e)) + unat (cooldownSeconds s)
                 \<le> unat (block_timestamp e)"
  proof -
    have "unat (block_timestamp e) < 2 ^ 256" using unsigned_less [of "block_timestamp e"] by simp
    with el have fits: "unat (lastDecryptionRequestTime s (msg_sender e)) + unat (cooldownSeconds s) < 2 ^ 256"
      by linarith
    with p u el show ?thesis
      by (simp add: request_unfold succeeds_def less_iff_unat_sum)
  qed
  from zero never admitted show ?thesis by blast
qed

theorem request_needs_submission_not_open_batch_witness:
  "batchSubmissionCount batch_closed 1 = 0
   \<and> \<not> succeeds (requestResearchCalculation demo_engine batch_closed (at_time 1 200) 1 7)
   \<and> reachable demo_engine batch_closed \<and> never_opened batch_closed 2
   \<and> \<not> succeeds (requestResearchCalculation demo_engine batch_closed (at_time 1 200) 2 7)
   \<and> isProvider submitted_then_closed (msg_sender (at_time 1 200)) \<and> \<not> paused submitted_then_closed
   \<and> batchSubmissionCount submitted_then_closed 1 \<noteq> 0
   \<and> succeeds (requestResearchCalculation demo_engine submitted_then_closed (at_time 1 200) 1 7)"
proof -
  have a: "batchSubmissionCount batch_closed 1 = 0" by (simp add: batch_closed_eq)
  have b: "never_opened batch_closed 2" by (simp add: never_opened_def batch_closed_eq)
  have c: "isProvider submitted_then_closed (msg_sender (at_time 1 200)) \<and> \<not> paused submitted_then_closed
      \<and> unat (lastDecryptionRequestTime submitted_then_closed (msg_sender (at_time 1 200)))
          + unat (cooldownSeconds submitted_then_closed) \<le> unat (block_timestamp (at_time 1 200))"
    by (simp add: submitted_then_closed_eq demo_defs)
  have d: "batchSubmissionCount submitted_then_closed 1 \<noteq> 0" by (simp add: submitted_then_closed_eq)
  show ?thesis
    using request_needs_submission_not_open_batch [of batch_closed 1 demo_engine "at_time 1 200" 7]
      request_needs_submission_not_open_batch [of batch_closed 2 demo_engine "at_time 1 200" 7]
      request_needs_submission_not_open_batch [of submitted_then_closed 1 demo_engine "at_time 1 200" 7]
      a b c d reachable_batch_closed
    by blast
qed

subsection \<open>C4: when the cooldown timestamp is written\<close>

text \<open>
  C4 says that a gated call which passes the cooldown check and then fails for another
  reason still moves the caller's timestamp to the current time. As stated it fails: the
  owner's submission at time 100 into the closed batch 1 passes the cooldown check and
  reverts with \<open>BatchClosed\<close>, and the owner's last submission time is still 0.
\<close>

theorem timestamp_kept_on_failure_counterexample:
  "respectSubmissionCooldown batch_closed (at_time 1 100) = None
   \<and> submitEncryptedGeneticData demo_engine batch_closed (at_time 1 100) 1 [9] = Inl BatchClosed
   \<and> lastSubmissionTime
        (after batch_closed (submitEncryptedGeneticData demo_engine batch_closed (at_time 1 100) 1 [9])) 1
       = 0
   \<and> block_timestamp (at_time 1 100) = 100"
  by (simp add: submit_unfold respectSubmissionCooldown_def checked_add_def after_def
      batch_closed_eq demo_defs)

text \<open>
  C4, amended: the caller's last-submission time (for \<open>submitEncryptedGeneticData\<close>) and
  last-request time (for \<open>requestResearchCalculation\<close>) is the current time after a call
  that succeeds, and is what it was after a call that fails, also when the call had
  passed the cooldown check: the timestamp is written after the last check of the call.
\<close>

theorem timestamp_updated_only_on_success:
  "lastSubmissionTime (after s (submitEncryptedGeneticData E s e b dataPoints)) (msg_sender e)
     = (if succeeds (submitEncryptedGeneticData E s e b dataPoints) then block_timestamp e
        else lastSubmissionTime s (msg_sender e))
   \<and> lastDecryptionRequestTime (after s (requestResearchCalculation E s e b requestId)) (msg_sender e)
     = (if succeeds (requestResearchCalculation E s e b requestId) then block_timestamp e
        else lastDecryptionRequestTime s (msg_sender e))"
  by (simp add: submit_unfold request_unfold succeeds_def after_def)

subsection \<open>C5: when a submission succeeds\<close>

text \<open>
  C5 says that a submission succeeds exactly when the caller is an authorized provider,
  the system is unpaused, the cooldown has elapsed, the batch is open and the handle list
  is not empty, and that otherwise the error of the violated check is raised. As stated
  it fails where the checked sum of the last submission time and the cooldown overflows:
  after the owner sets the cooldown to \<open>2 ^ 256 - 1\<close>, the owner's next submission (all
  other checks satisfied, the cooldown not elapsed) reverts with the arithmetic panic, not
  with \<open>CooldownActive\<close>.
\<close>

theorem submit_cooldown_overflow_counterexample:
  "isProvider cooldown_maximal 1 \<and> \<not> paused cooldown_maximal \<and> isBatchOpen cooldown_maximal 1
   \<and> unat (500 :: uint256)
        < unat (lastSubmissionTime cooldown_maximal 1) + unat (cooldownSeconds cooldown_maximal)
   \<and> submitEncryptedGeneticData demo_engine cooldown_maximal (at_time 1 500) 1 [9] = Inl Panic"
  by (simp add: submit_unfold cooldown_maximal_eq demo_defs unat_max_uint256)

text \<open>
  C5, amended: a submission succeeds exactly when the caller is an authorized provider,
  the system is unpaused, the cooldown has elapsed, the batch is open, the handle list is
  not empty, and the batch's counter is below \<open>2 ^ 256 - 1\<close>. When a check fails, the
  error of the first violated check is raised, in this order: \<open>NotProvider\<close>, \<open>Paused\<close>,
  \<open>CooldownActive\<close>, \<open>BatchClosed\<close>, \<open>EmptyBatch\<close>; except that, for an authorized
  provider on the unpaused system, a last submission time plus cooldown above
  \<open>2 ^ 256 - 1\<close> raises the arithmetic panic in the place of \<open>CooldownActive\<close>, and a
  counter at \<open>2 ^ 256 - 1\<close> raises it after all five checks have passed. A failed
  submission leaves the storage as it was.
\<close>

theorem submit_succeeds_iff:
  assumes r: "r = submitEncryptedGeneticData E s e b dataPoints"
    and t: "t = unat (lastSubmissionTime s (msg_sender e))"
    and c: "c = unat (cooldownSeconds s)"
    and el: "elapsed = (\<not> unat (block_timestamp e) < t + c)"
  shows "(succeeds r \<longleftrightarrow>
            isProvider s (msg_sender e) \<and> \<not> paused s \<and> elapsed \<and> isBatchOpen s b \<and> dataPoints \<noteq> []
            \<and> unat (batchSubmissionCount s b) + 1 < 2 ^ 256)
       \<and> (\<not> isProvider s (msg_sender e) \<longrightarrow> r = Inl NotProvider)
       \<and> (isProvider s (msg_sender e) \<and> paused s \<longrightarrow> r = Inl Paused)
       \<and> (isProvider s (msg_sender e) \<and> \<not> paused s \<and> \<not> elapsed \<and> t + c < 2 ^ 256
            \<longrightarrow> r = Inl CooldownActive)
       \<and> (isProvider s (msg_sender e) \<and> \<not> paused s \<and> \<not> t + c < 2 ^ 256 \<longrightarrow> r = Inl Panic)
       \<and> (isProvider s (msg_sender e) \<and> \<not> paused s \<and> elapsed \<and> \<not> isBatchOpen s b
            \<longrightarrow> r = Inl BatchClosed)
       \<and> (isProvider s (msg_sender e) \<and> \<not> paused s \<and> elapsed \<and> isBatchOpen s b \<and> dataPoints = []
            \<longrightarrow> r = Inl EmptyBatch)
       \<and> (isProvider s (msg_sender e) \<and> \<not> paused s \<and> elapsed \<and> isBatchOpen s b \<and> dataPoints \<noteq> []
            \<and> \<not> unat (batchSubmissionCount s b) + 1 < 2 ^ 256 \<longrightarrow> r = Inl Panic)
       \<and> (\<not> succeeds r \<longrightarrow> after s r = s)"
proof (cases "t + c < 2 ^ 256")
  case True
  then have "(block_timestamp e < lastSubmissionTime s (msg_sender e) + cooldownSeconds s)
      = (unat (block_timestamp e) < t + c)"
    using t c by (simp add: less_iff_unat_sum)
  with True r t c el show ?thesis
    by (simp add: submit_unfold succeeds_def after_def)
next
  case False
  have "unat (block_timestamp e) < 2 ^ 256"
    using unsigned_less [of "block_timestamp e"] by simp
  with False el have "\<not> elapsed" by simp
  with False r t c show ?thesis
    by (simp add: submit_unfold succeeds_def after_def)
qed

text \<open>
  On the storage where the owner last submitted at time 100 with cooldown 60: success at
  time 160, and each of the five errors; on the storage with the cooldown at its maximum:
  the panic.
\<close>

theorem submit_succeeds_iff_witness:
  "succeeds (submitEncryptedGeneticData demo_engine owner_submitted (at_time 1 160) 1 [9])
   \<and> submitEncryptedGeneticData demo_engine owner_submitted (at_time 3 160) 1 [9] = Inl NotProvider
   \<and> submitEncryptedGeneticData demo_engine (owner_submitted\<lparr> paused := True \<rparr>) (at_time 1 160) 1 [9]
       = Inl Paused
   \<and> submitEncryptedGeneticData demo_engine owner_submitted (at_time 1 159) 1 [9] = Inl CooldownActive
   \<and> submitEncryptedGeneticData demo_engine owner_submitted (at_time 1 160) 2 [9] = Inl BatchClosed
   \<and> submitEncryptedGeneticData demo_engine owner_submitted (at_time 1 160) 1 [] = Inl EmptyBatch
   \<and> submitEncryptedGeneticData demo_engine cooldown_maximal (at_time 1 160) 1 [9] = Inl Panic"
proof -
  note th = submit_succeeds_iff [OF refl refl refl refl, of demo_engine]
  show ?thesis
    using th [of owner_submitted "at_time 1 160" 1 "[9]"]
      th [of owner_submitted "at_time 3 160" 1 "[9]"]
      th [of "owner_submitted\<lparr> paused := True \<rparr>" "at_time 1 160" 1 "[9]"]
      th [of owner_submitted "at_time 1 159" 1 "[9]"]
      th [of owner_submitted "at_time 1 160" 2 "[9]"]
      th [of owner_submitted "at_time 1 160" 1 "[]"]
      th [of cooldown_maximal "at_time 1 160" 1 "[9]"]
    by (simp add: owner_submitted_eq cooldown_maximal_eq demo_defs unat_max_uint256)
qed

subsection \<open>C6: what an accepted submission stores\<close>

text \<open>
  C6: after every accepted submission of \<open>dataPoints\<close> into batch \<open>b\<close>, the list stored
  for the batch and the caller is \<open>dataPoints\<close> with every handle the engine does not take
  as initialized replaced by the encryption of zero (same length, same order), whatever
  was stored before; and the batch's submission counter is one more than before the call.
\<close>

theorem submit_stores_normalized_list_and_counts:
  assumes "succeeds (submitEncryptedGeneticData E s e b dataPoints)"
  shows "batchGeneticData (after s (submitEncryptedGeneticData E s e b dataPoints)) b (msg_sender e)
           = map (\<lambda>h. if fhe_isInitialized E h then h else fhe_asEuint32 E 0) dataPoints
       \<and> unat (batchSubmissionCount (after s (submitEncryptedGeneticData E s e b dataPoints)) b)
           = unat (batchSubmissionCount s b) + 1"
proof -
  have norm: "initIfNeeded E = (\<lambda>h. if fhe_isInitialized E h then h else fhe_asEuint32 E 0)"
    by (rule ext) (simp add: initIfNeeded_def)
  from assms show ?thesis
    by (simp add: submit_unfold succeeds_def after_def norm unat_succ_256 split: if_splits)
qed

text \<open>
  The owner, who has \<open>[7]\<close> stored for batch 1, submits \<open>[0, 9, 0]\<close>: the stored list
  becomes \<open>[1, 9, 1]\<close> (1 is the concrete engine's encryption of zero) and the counter
  goes from 1 to 2.
\<close>

theorem submit_stores_normalized_list_and_counts_witness:
  "succeeds (submitEncryptedGeneticData demo_engine owner_submitted (at_time 1 500) 1 [0, 9, 0])
   \<and> batchGeneticData owner_submitted 1 1 = [7]
   \<and> batchGeneticData
        (after owner_submitted
           (submitEncryptedGeneticData demo_engine owner_submitted (at_time 1 500) 1 [0, 9, 0])) 1 1
       = [1, 9, 1]
   \<and> unat (batchSubmissionCount owner_submitted 1) = 1
   \<and> unat (batchSubmissionCount
        (after owner_submitted
           (submitEncryptedGeneticData demo_engine owner_submitted (at_time 1 500) 1 [0, 9, 0])) 1)
       = 2"
proof -
  have ok: "succeeds (submitEncryptedGeneticData demo_engine owner_submitted (at_time 1 500) 1 [0, 9, 0])"
    by (simp add: submit_unfold succeeds_def owner_submitted_eq demo_defs)
  from submit_stores_normalized_list_and_counts [OF ok] ok show ?thesis
    by (simp add: owner_submitted_eq demo_defs)
qed

subsection \<open>C7: replaying the callback\<close>

text \<open>
  C7 says that of two invocations of the callback with the same request identifier and
  payload the second fails with the replay error. As stated it fails when the first
  invocation fails: for the owner's pending request 7 and a proof the engine's check does
  not accept, both invocations revert with \<open>InvalidProof\<close>, and the request is not
  processed.
\<close>

theorem callback_replay_after_failure_counterexample:
  "myCallback demo_engine owner_requested (at_time 3 300) 7 cleartext5 [] = Inl InvalidProof
   \<and> myCallback demo_engine
        (after owner_requested (myCallback demo_engine owner_requested (at_time 3 300) 7 cleartext5 []))
        (at_time 3 300) 7 cleartext5 [] = Inl InvalidProof
   \<and> \<not> processed
          (decryptionContexts
             (after owner_requested (myCallback demo_engine owner_requested (at_time 3 300) 7 cleartext5 []))
             7)"
  by (simp add: callback_unfold reconstruct_unfold after_def owner_requested_eq demo_defs summed_Cons)

text \<open>
  C7, amended: when the callback is invoked twice with the same request identifier and
  payload, the second invocation never succeeds and leaves the storage as the first
  invocation left it. When the first invocation succeeded, the second reverts with the
  replay error and the request is still marked processed; when the first invocation
  failed, it changed nothing and the second fails with the same error as the first
  (which is the replay error only if the request had been processed before). The second
  invocation may come from another caller at another time.
\<close>

theorem callback_replay_rejected:
  assumes s1: "s1 = after s (myCallback E s e requestId cleartexts proof)"
    and same: "this_address e' = this_address e"
  shows "\<not> succeeds (myCallback E s1 e' requestId cleartexts proof)
       \<and> after s1 (myCallback E s1 e' requestId cleartexts proof) = s1
       \<and> (succeeds (myCallback E s e requestId cleartexts proof) \<longrightarrow>
            myCallback E s1 e' requestId cleartexts proof = Inl ReplayAttempt
            \<and> processed (decryptionContexts s1 requestId))
       \<and> (\<not> succeeds (myCallback E s e requestId cleartexts proof) \<longrightarrow>
            s1 = s
            \<and> myCallback E s1 e' requestId cleartexts proof
                = myCallback E s e requestId cleartexts proof)"
proof (cases "myCallback E s e requestId cleartexts proof")
  case (Inl err)
  with s1 have unchanged: "s1 = s" by (simp add: after_def)
  from same have "myCallback E s e' requestId cleartexts proof
      = myCallback E s e requestId cleartexts proof"
    by (simp add: callback_unfold reconstruct_unfold)
  with Inl unchanged show ?thesis by (simp add: succeeds_def after_def)
next
  case (Inr res)
  obtain s' evs where res: "res = (s', evs)" by (cases res)
  with Inr s1 have s1': "s1 = s'" by (simp add: after_def)
  from Inr res have "processed (decryptionContexts s' requestId)"
    by (auto simp add: callback_unfold split: if_splits)
  with s1' have marked: "processed (decryptionContexts s1 requestId)" by simp
  then have "myCallback E s1 e' requestId cleartexts proof = Inl ReplayAttempt"
    by (simp add: callback_unfold)
  with marked Inr show ?thesis by (simp add: succeeds_def after_def)
qed

text \<open>
  The owner's pending request 7: with a proof that verifies, the first invocation
  succeeds and the second reverts with \<open>ReplayAttempt\<close>; with one that does not, the
  second repeats the first's \<open>InvalidProof\<close>.
\<close>

theorem callback_replay_rejected_witness:
  "succeeds (myCallback demo_engine owner_requested (at_time 3 300) 7 cleartext5 cleartext5)
   \<and> myCallback demo_engine
        (after owner_requested (myCallback demo_engine owner_requested (at_time 3 300) 7 cleartext5 cleartext5))
        (at_time 4 400) 7 cleartext5 cleartext5 = Inl ReplayAttempt
   \<and> \<not> succeeds (myCallback demo_engine owner_requested (at_time 3 300) 7 cleartext5 [1])
   \<and> myCallback demo_engine
        (after owner_requested (myCallback demo_engine owner_requested (at_time 3 300) 7 cleartext5 [1]))
        (at_time 4 400) 7 cleartext5 [1] = Inl InvalidProof"
proof -
  have ok: "succeeds (myCallback demo_engine owner_requested (at_time 3 300) 7 cleartext5 cleartext5)"
    by (simp add: callback_unfold reconstruct_unfold succeeds_def owner_requested_eq demo_defs summed_Cons)
  have bad: "myCallback demo_engine owner_requested (at_time 3 300) 7 cleartext5 [1] = Inl InvalidProof"
    by (simp add: callback_unfold reconstruct_unfold owner_requested_eq demo_defs summed_Cons)
  then have failed: "\<not> succeeds (myCallback demo_engine owner_requested (at_time 3 300) 7 cleartext5 [1])"
    by (simp add: succeeds_def)
  have same: "this_address (at_time 4 400) = this_address (at_time 3 300)"
    by (simp add: at_time_def)
  have replayed: "myCallback demo_engine
        (after owner_requested (myCallback demo_engine owner_requested (at_time 3 300) 7 cleartext5 cleartext5))
        (at_time 4 400) 7 cleartext5 cleartext5 = Inl ReplayAttempt"
    using callback_replay_rejected [OF refl same, of demo_engine owner_requested 7 cleartext5 cleartext5] ok
    by blast
  have repeated: "myCallback demo_engine
        (after owner_requested (myCallback demo_engine owner_requested (at_time 3 300) 7 cleartext5 [1]))
        (at_time 4 400) 7 cleartext5 [1]
      = myCallback demo_engine owner_requested (at_time 3 300) 7 cleartext5 [1]"
    using callback_replay_rejected [OF refl same, of demo_engine owner_requested 7 cleartext5 "[1]"] failed
    by blast
  from ok replayed failed repeated bad show ?thesis by simp
qed

subsection \<open>C8: the cooldown comparison\<close>

text \<open>
  C8 says that, with last timestamp \<open>t\<close> and cooldown \<open>c\<close>, a gated call at time \<open>now\<close>
  is rejected with the cooldown error exactly when \<open>now < t + c\<close>. As stated it fails
  where \<open>t + c\<close> does not fit in 256 bits: after the owner's request at time 200 and a
  cooldown set to \<open>2 ^ 256 - 1\<close>, the owner's request at time 300 (which is below
  \<open>t + c\<close>) reverts with the arithmetic panic of the checked addition, not with
  \<open>CooldownActive\<close>.
\<close>

theorem request_cooldown_overflow_counterexample:
  "isProvider request_cooldown_maximal 1 \<and> \<not> paused request_cooldown_maximal
   \<and> unat (300 :: uint256)
        < unat (lastDecryptionRequestTime request_cooldown_maximal 1)
          + unat (cooldownSeconds request_cooldown_maximal)
   \<and> respectDecryptionCooldown request_cooldown_maximal (at_time 1 300) = Some Panic
   \<and> requestResearchCalculation demo_engine request_cooldown_maximal (at_time 1 300) 1 8 = Inl Panic"
  by (simp add: request_unfold respectDecryptionCooldown_def checked_add_def
      request_cooldown_maximal_eq owner_requested_eq demo_defs unat_max_uint256)

text \<open>
  C8, amended: for each class of gated call, with \<open>t\<close> the caller's last timestamp of
  that class and \<open>c\<close> the cooldown. Where \<open>t + c\<close> fits in 256 bits, the cooldown check
  rejects with \<open>CooldownActive\<close> exactly when \<open>now < t + c\<close> and admits exactly when
  \<open>t + c \<le> now\<close> (so a call at \<open>now = t + c\<close> is admitted), and the call of an
  authorized provider on the unpaused system reverts with \<open>CooldownActive\<close> exactly when
  \<open>now < t + c\<close>. Where \<open>t + c\<close> does not fit, the cooldown check reverts with the
  arithmetic panic, and so does the call of an authorized provider on the unpaused
  system. In both cases a call at \<open>now < t + c\<close> leaves the storage as it was.
\<close>

theorem cooldown_rejects_iff:
  assumes now: "now = unat (block_timestamp e)" and c: "c = unat (cooldownSeconds s)"
    and ts: "ts = unat (lastSubmissionTime s (msg_sender e))"
    and td: "td = unat (lastDecryptionRequestTime s (msg_sender e))"
    and adm: "admitted = (isProvider s (msg_sender e) \<and> \<not> paused s)"
  shows "(ts + c < 2 ^ 256 \<longrightarrow>
            (respectSubmissionCooldown s e = Some CooldownActive \<longleftrightarrow> now < ts + c)
          \<and> (respectSubmissionCooldown s e = None \<longleftrightarrow> ts + c \<le> now)
          \<and> (admitted \<longrightarrow>
                (submitEncryptedGeneticData E s e b dataPoints = Inl CooldownActive \<longleftrightarrow> now < ts + c)))
       \<and> (\<not> ts + c < 2 ^ 256 \<longrightarrow>
            respectSubmissionCooldown s e = Some Panic
          \<and> (admitted \<longrightarrow> submitEncryptedGeneticData E s e b dataPoints = Inl Panic))
       \<and> (now < ts + c \<longrightarrow> after s (submitEncryptedGeneticData E s e b dataPoints) = s)
       \<and> (td + c < 2 ^ 256 \<longrightarrow>
            (respectDecryptionCooldown s e = Some CooldownActive \<longleftrightarrow> now < td + c)
          \<and> (respectDecryptionCooldown s e = None \<longleftrightarrow> td + c \<le> now)
          \<and> (admitted \<longrightarrow>
                (requestResearchCalculation E s e b requestId = Inl CooldownActive \<longleftrightarrow> now < td + c)))
       \<and> (\<not> td + c < 2 ^ 256 \<longrightarrow>
            respectDecryptionCooldown s e = Some Panic
          \<and> (admitted \<longrightarrow> requestResearchCalculation E s e b requestId = Inl Panic))
       \<and> (now < td + c \<longrightarrow> after s (requestResearchCalculation E s e b requestId) = s)"
proof -
  have sub: "(block_timestamp e < lastSubmissionTime s (msg_sender e) + cooldownSeconds s)
        = (now < ts + c)" if "ts + c < 2 ^ 256"
    using that now c ts by (simp add: less_iff_unat_sum)
  have dec: "(block_timestamp e < lastDecryptionRequestTime s (msg_sender e) + cooldownSeconds s)
        = (now < td + c)" if "td + c < 2 ^ 256"
    using that now c td by (simp add: less_iff_unat_sum)
  have c': "unat (cooldownSeconds s) = c" using c by simp
  have ts': "unat (lastSubmissionTime s (msg_sender e)) = ts" using ts by simp
  have td': "unat (lastDecryptionRequestTime s (msg_sender e)) = td" using td by simp
  have submit_part:
    "(ts + c < 2 ^ 256 \<longrightarrow>
            (respectSubmissionCooldown s e = Some CooldownActive \<longleftrightarrow> now < ts + c)
          \<and> (respectSubmissionCooldown s e = None \<longleftrightarrow> ts + c \<le> now)
          \<and> (admitted \<longrightarrow>
                (submitEncryptedGeneticData E s e b dataPoints = Inl CooldownActive \<longleftrightarrow> now < ts + c)))
       \<and> (\<not> ts + c < 2 ^ 256 \<longrightarrow>
            respectSubmissionCooldown s e = Some Panic
          \<and> (admitted \<longrightarrow> submitEncryptedGeneticData E s e b dataPoints = Inl Panic))
       \<and> (now < ts + c \<longrightarrow> after s (submitEncryptedGeneticData E s e b dataPoints) = s)"
  proof (cases "ts + c < 2 ^ 256")
    case True
    with sub adm show ?thesis
      by (auto simp add: submit_unfold respectSubmissionCooldown_def checked_add_def after_def c' ts')
  next
    case False
    with adm show ?thesis
      by (auto simp add: submit_unfold respectSubmissionCooldown_def checked_add_def after_def c' ts')
  qed
  have request_part:
    "(td + c < 2 ^ 256 \<longrightarrow>
            (respectDecryptionCooldown s e = Some CooldownActive \<longleftrightarrow> now < td + c)
          \<and> (respectDecryptionCooldown s e = None \<longleftrightarrow> td + c \<le> now)
          \<and> (admitted \<longrightarrow>
                (requestResearchCalculation E s e b requestId = Inl CooldownActive \<longleftrightarrow> now < td + c)))
       \<and> (\<not> td + c < 2 ^ 256 \<longrightarrow>
            respectDecryptionCooldown s e = Some Panic
          \<and> (admitted \<longrightarrow> requestResearchCalculation E s e b requestId = Inl Panic))
       \<and> (now < td + c \<longrightarrow> after s (requestResearchCalculation E s e b requestId) = s)"
  proof (cases "td + c < 2 ^ 256")
    case True
    with dec adm show ?thesis
      by (auto simp add: request_unfold respectDecryptionCooldown_def checked_add_def after_def c' td')
  next
    case False
    with adm show ?thesis
      by (auto simp add: request_unfold respectDecryptionCooldown_def checked_add_def after_def c' td')
  qed
  from submit_part request_part show ?thesis by simp
qed

text \<open>
  The owner last submitted at time 100 and the cooldown is 60: a submission at 159 is
  rejected with \<open>CooldownActive\<close>, one at 160 is admitted and succeeds; the owner has
  made no request yet, so a request is rejected at 59 and admitted at 60. With the
  cooldown at its maximum, the owner's submission reverts with the panic.
\<close>

theorem cooldown_rejects_iff_witness:
  "respectSubmissionCooldown owner_submitted (at_time 1 159) = Some CooldownActive
   \<and> submitEncryptedGeneticData demo_engine owner_submitted (at_time 1 159) 1 [9] = Inl CooldownActive
   \<and> respectSubmissionCooldown owner_submitted (at_time 1 160) = None
   \<and> succeeds (submitEncryptedGeneticData demo_engine owner_submitted (at_time 1 160) 1 [9])
   \<and> requestResearchCalculation demo_engine owner_submitted (at_time 1 59) 1 7 = Inl CooldownActive
   \<and> respectDecryptionCooldown owner_submitted (at_time 1 60) = None
   \<and> respectSubmissionCooldown cooldown_maximal (at_time 1 700) = Some Panic
   \<and> submitEncryptedGeneticData demo_engine cooldown_maximal (at_time 1 700) 1 [9] = Inl Panic"
proof -
  note th = cooldown_rejects_iff [OF refl refl refl refl refl,
      where E = demo_engine and b = 1 and dataPoints = "[9]" and requestId = 7]
  have ok: "succeeds (submitEncryptedGeneticData demo_engine owner_submitted (at_time 1 160) 1 [9])"
    by (simp add: submit_unfold succeeds_def owner_submitted_eq demo_defs)
  show ?thesis
    using th [where e = "at_time 1 159" and s = owner_submitted]
      th [where e = "at_time 1 160" and s = owner_submitted]
      th [where e = "at_time 1 59" and s = owner_submitted]
      th [where e = "at_time 1 60" and s = owner_submitted]
      th [where e = "at_time 1 700" and s = cooldown_maximal] ok
    by (simp add: owner_submitted_eq cooldown_maximal_eq demo_defs unat_max_uint256)
qed

subsection \<open>C9: who may invoke the callback\<close>

text \<open>
  C9 says that a callback from any caller other than the engine is rejected whatever
  its payload. As stated it fails: addresses 3 and 4, neither owner nor provider (and at
  most one of them the engine), each complete the owner's pending request 7 with a
  payload whose proof the engine's check accepts.
\<close>

theorem callback_by_anyone_counterexample:
  "owner owner_requested \<noteq> 3 \<and> \<not> isProvider owner_requested 3
   \<and> succeeds (myCallback demo_engine owner_requested (at_time 3 300) 7 cleartext5 cleartext5)
   \<and> owner owner_requested \<noteq> 4 \<and> \<not> isProvider owner_requested 4
   \<and> succeeds (myCallback demo_engine owner_requested (at_time 4 300) 7 cleartext5 cleartext5)"
  by (simp add: callback_unfold reconstruct_unfold succeeds_def owner_requested_eq demo_defs summed_Cons)

text \<open>
  C9, amended: the callback does not look at its caller: its outcome is the same for
  every caller, and it succeeds exactly when the request is not processed, the rebuilt
  fingerprint equals the recorded one, the engine's signature check accepts the request
  identifier, cleartext and proof, and the cleartext has the 32 bytes of a result. What
  keeps others out is the proof, not the caller's address.
\<close>

theorem callback_ignores_caller:
  "myCallback E s (e\<lparr> msg_sender := a \<rparr>) requestId cleartexts proof
     = myCallback E s e requestId cleartexts proof
   \<and> (succeeds (myCallback E s e requestId cleartexts proof) \<longleftrightarrow>
        \<not> processed (decryptionContexts s requestId)
        \<and> reconstructAndHashCleartextsForCallback E s e (batchId (decryptionContexts s requestId))
            = stateHash (decryptionContexts s requestId)
        \<and> fhe_checkSignatures E requestId cleartexts proof
        \<and> 32 \<le> length cleartexts)"
  by (auto simp add: callback_unfold reconstruct_unfold succeeds_def)

end
